theory Spec2Isabelle
  imports Complex_Main "HOL-Library.Code_Target_Numeral"
begin

section \<open>Python values and errors\<close>

text \<open>
  The converter is a Python script. Its exceptions are values of \<open>error\<close>; a
  computation that may raise returns \<open>error + 'a\<close> with \<open>Inl\<close> for the exception.
  All of them derive from Python's \<open>Exception\<close>, which is what \<open>main\<close> catches.
\<close>

datatype error =
    AttributeError | KeyError | TypeError | ValueError | IndexError
  | ZeroDivisionError | BadZipFile | XMLSyntaxError | OSError

text \<open>
  A cell of the data frame, or any dynamically typed value the script handles.
  Python floats are modelled by exact reals (\<open>PyFloat\<close>) and by the one special value
  the pipeline can produce, \<open>PyNaN\<close> (pandas stores a missing number as NaN); the
  rounding of binary floating point is outside the model. Strings are lists of
  characters with code points below 256.
\<close>

datatype pyval = PyNone | PyStr string | PyInt int | PyFloat real | PyNaN

text \<open>Apply a function that may raise to each element in order; the first exception ends the loop.\<close>

fun map_err :: "('a \<Rightarrow> error + 'b) \<Rightarrow> 'a list \<Rightarrow> error + 'b list" where
  "map_err f [] = Inr []"
| "map_err f (x # xs) =
     (case f x of
        Inl e \<Rightarrow> Inl e
      | Inr y \<Rightarrow> (case map_err f xs of Inl e \<Rightarrow> Inl e | Inr ys \<Rightarrow> Inr (y # ys)))"

section \<open>Numbers and their text\<close>

definition is_digit :: "char \<Rightarrow> bool" where
  "is_digit c = (c \<in> set ''0123456789'')"

text \<open>The value of a digit is its position among the ten digits.\<close>

definition digit_val :: "char \<Rightarrow> nat" where
  "digit_val c = length (takeWhile (\<lambda>d. d \<noteq> c) ''0123456789'')"

definition digits_val :: "string \<Rightarrow> nat" where
  "digits_val s = foldl (\<lambda>n c. 10 * n + digit_val c) 0 s"

definition digit_char :: "nat \<Rightarrow> char" where
  "digit_char d = ''0123456789abcdef'' ! d"

text \<open>Decimal and lower-case hexadecimal text of a natural number, without padding.\<close>

fun show_nat :: "nat \<Rightarrow> string" where
  "show_nat n = (if n < 10 then [digit_char n] else show_nat (n div 10) @ [digit_char (n mod 10)])"

fun hex_nat :: "nat \<Rightarrow> string" where
  "hex_nat n = (if n < 16 then [digit_char n] else hex_nat (n div 16) @ [digit_char (n mod 16)])"

declare show_nat.simps [simp del]
declare hex_nat.simps [simp del]

definition show_int :: "int \<Rightarrow> string" where
  "show_int i = (if i < 0 then CHR ''-'' # show_nat (nat (- i)) else show_nat (nat i))"

definition zero_pad :: "nat \<Rightarrow> string \<Rightarrow> string" where
  "zero_pad w s = replicate (w - length s) CHR ''0'' @ s"

text \<open>
  A decimal numeral as \<open>float()\<close> reads it and \<open>repr\<close> prints it: sign, digits and the
  number of digits after the point. The model is exact for numerals of at most 15
  significant digits, which a Python float reads and prints back unchanged.
\<close>

record dec =
  neg :: bool
  mant :: nat
  expo :: nat

definition dec_real :: "dec \<Rightarrow> real" where
  "dec_real d = (if neg d then - 1 else 1) * real (mant d) / 10 ^ expo d"

text \<open>The white space of \<open>str.strip\<close> among the code points below 256.\<close>

definition is_space :: "char \<Rightarrow> bool" where
  "is_space c =
     (c \<in> set [CHR '' '', CHR 0x09, CHR 0x0A, CHR 0x0B, CHR 0x0C, CHR 0x0D,
                CHR 0x1C, CHR 0x1D, CHR 0x1E, CHR 0x1F, CHR 0x85, CHR 0xA0])"

definition strip :: "string \<Rightarrow> string" where
  "strip s = rev (dropWhile is_space (rev (dropWhile is_space s)))"

text \<open>
  \<open>float(s)\<close> for a plain decimal numeral: surrounding white space, an optional
  sign, digits with an optional point, at least one digit. Anything else is a
  \<open>ValueError\<close> here; Python also reads exponents, underscores, \<open>inf\<close> and \<open>nan\<close>,
  which the model leaves out.
\<close>

definition parse_dec :: "string \<Rightarrow> error + dec" where
  "parse_dec s =
     (let s1 = strip s;
          sg = (case s1 of c # r \<Rightarrow> if c = CHR ''-'' \<or> c = CHR ''+'' then (c = CHR ''-'', r) else (False, s1)
                | [] \<Rightarrow> (False, s1));
          ip = takeWhile is_digit (snd sg);
          r1 = dropWhile is_digit (snd sg);
          fr = (case r1 of c # r \<Rightarrow> if c = CHR ''.'' then (takeWhile is_digit r, dropWhile is_digit r) else ([], r1)
                | [] \<Rightarrow> ([], r1))
      in if snd fr \<noteq> [] \<or> (ip = [] \<and> fst fr = []) then Inl ValueError
         else Inr \<lparr>neg = fst sg, mant = digits_val (ip @ fst fr), expo = length (fst fr)\<rparr>)"

definition py_float :: "string \<Rightarrow> error + real" where
  "py_float s = (case parse_dec s of Inl e \<Rightarrow> Inl e | Inr d \<Rightarrow> Inr (dec_real d))"

text \<open>Drop the zeros at the end of the fraction: the shortest numeral of the same value.\<close>

fun dec_norm :: "nat \<Rightarrow> nat \<Rightarrow> nat \<times> nat" where
  "dec_norm m 0 = (m, 0)"
| "dec_norm m (Suc e) = (if m mod 10 = 0 then dec_norm (m div 10) e else (m, Suc e))"

text \<open>
  \<open>repr\<close> of a float, which is what an f-string field without a format prints:
  positional notation with at least one digit after the point when the decimal
  exponent is between -4 and 15, scientific notation otherwise.
\<close>

definition repr_dec :: "dec \<Rightarrow> string" where
  "repr_dec d =
     (let me = dec_norm (mant d) (expo d);
          ds = show_nat (fst me);
          e = snd me;
          n = length ds;
          sgn = (if neg d then ''-'' else '''')
      in if fst me = 0 then sgn @ ''0.0''
         else if e + 16 < n \<or> n + 3 < e then
           (let x = int n - 1 - int e;
                sd = rev (dropWhile (\<lambda>c. c = CHR ''0'') (rev ds))
            in sgn @ [hd sd] @ (if tl sd = [] then [] else CHR ''.'' # tl sd) @ ''e''
                 @ (if x < 0 then ''-'' else ''+'') @ zero_pad 2 (show_nat (nat \<bar>x\<bar>)))
         else if e = 0 then sgn @ ds @ ''.0''
         else if n \<le> e then sgn @ ''0.'' @ replicate (e - n) CHR ''0'' @ ds
         else sgn @ take (n - e) ds @ ''.'' @ drop (n - e) ds)"

text \<open>Rounding to the nearest integer, ties to even, as Python's number formatting does.\<close>

definition round_half_even :: "real \<Rightarrow> int" where
  "round_half_even y =
     (let f = \<lfloor>y\<rfloor>; d = y - of_int f
      in if d < 1 / 2 then f else if 1 / 2 < d then f + 1 else if even f then f else f + 1)"

text \<open>The format \<open>:.kf\<close> of a real: \<open>k\<close> digits after the point (\<open>k > 0\<close> in the script).\<close>

definition fixed_real :: "nat \<Rightarrow> real \<Rightarrow> string" where
  "fixed_real k x =
     (let n = nat (round_half_even (\<bar>x\<bar> * 10 ^ k))
      in (if x < 0 then ''-'' else '''') @ show_nat (n div 10 ^ k) @ ''.''
           @ zero_pad k (show_nat (n mod 10 ^ k)))"

definition format_fixed :: "nat \<Rightarrow> pyval \<Rightarrow> error + string" where
  "format_fixed k v =
     (case v of
        PyFloat x \<Rightarrow> Inr (fixed_real k x)
      | PyInt i \<Rightarrow> Inr (fixed_real k (of_int i))
      | PyNaN \<Rightarrow> Inr ''nan''
      | PyNone \<Rightarrow> Inl TypeError
      | PyStr s \<Rightarrow> Inl ValueError)"

text \<open>
  \<open>int(x)\<close>: truncation towards zero on numbers, a digit string read in base 10.
  The script applies it to the fourth group of the pattern only, a string of
  digits; the signs, spaces and underscores \<open>int\<close> also reads, and the
  interpreter's limit on the length of the string, are left out.
\<close>

definition trunc :: "real \<Rightarrow> int" where
  "trunc x = (if 0 \<le> x then \<lfloor>x\<rfloor> else \<lceil>x\<rceil>)"

definition py_int :: "pyval \<Rightarrow> error + int" where
  "py_int v =
     (case v of
        PyInt i \<Rightarrow> Inr i
      | PyFloat x \<Rightarrow> Inr (trunc x)
      | PyNaN \<Rightarrow> Inl ValueError
      | PyNone \<Rightarrow> Inl TypeError
      | PyStr s \<Rightarrow> if s \<noteq> [] \<and> list_all is_digit s then Inr (int (digits_val s)) else Inl ValueError)"

text \<open>
  The format \<open>:02x\<close> of an integer, and \<open>str.upper\<close> on the characters such a
  text is made of: the digits, the letters \<open>a\<close> to \<open>f\<close> and the sign.
\<close>

definition format_02x :: "int \<Rightarrow> string" where
  "format_02x i = (if i < 0 then CHR ''-'' # zero_pad 1 (hex_nat (nat (- i))) else zero_pad 2 (hex_nat (nat i)))"

definition upper_char :: "char \<Rightarrow> char" where
  "upper_char c =
     (if c = CHR ''a'' then CHR ''A'' else if c = CHR ''b'' then CHR ''B''
      else if c = CHR ''c'' then CHR ''C'' else if c = CHR ''d'' then CHR ''D''
      else if c = CHR ''e'' then CHR ''E'' else if c = CHR ''f'' then CHR ''F'' else c)"

definition upper :: "string \<Rightarrow> string" where
  "upper s = map upper_char s"

section \<open>parse_description\<close>

text \<open>
  The pattern of \<open>parse_description\<close> is
  \<^verbatim>\<open><b>(.*?)</b></br>([\d.]+) ?Sv/h</br>([\d.]+) cps</br>Accuracy: ?(\d+) m</br>\<close>
  where the first \<^verbatim>\<open>?\<close> is the micro sign (code point 0xB5) and the second the
  plus-minus sign (code point 0xB1). \<open>re.search\<close> returns the leftmost match; the first
  group is lazy and never crosses a line feed.
\<close>

definition micro :: char where
  "micro = CHR 0xB5"

definition plusminus :: char where
  "plusminus = CHR 0xB1"

definition newline :: char where
  "newline = CHR 0x0A"

definition lit_open :: string where
  "lit_open = ''<b>''"

definition lit_close :: string where
  "lit_close = ''</b></br>''"

definition lit_usvh :: string where
  "lit_usvh = '' '' @ [micro] @ ''Sv/h</br>''"

definition lit_cps :: string where
  "lit_cps = '' cps</br>Accuracy: '' @ [plusminus]"

definition lit_m :: string where
  "lit_m = '' m</br>''"

definition is_numch :: "char \<Rightarrow> bool" where
  "is_numch c = (is_digit c \<or> c = CHR ''.'')"

fun strip_prefix :: "string \<Rightarrow> string \<Rightarrow> string option" where
  "strip_prefix [] s = Some s"
| "strip_prefix (p # ps) [] = None"
| "strip_prefix (p # ps) (c # cs) = (if p = c then strip_prefix ps cs else None)"

text \<open>
  Everything after the first group. Each character class is followed by a literal
  that starts with a space, which is not in the class, so the greedy class takes the
  longest run and no shorter run can match: no backtracking is left to model.
\<close>

definition match_tail :: "string \<Rightarrow> (string \<times> string \<times> string) option" where
  "match_tail s =
     (case strip_prefix lit_close s of
        None \<Rightarrow> None
      | Some s1 \<Rightarrow>
          if takeWhile is_numch s1 = [] then None
          else (case strip_prefix lit_usvh (dropWhile is_numch s1) of
             None \<Rightarrow> None
           | Some s2 \<Rightarrow>
               if takeWhile is_numch s2 = [] then None
               else (case strip_prefix lit_cps (dropWhile is_numch s2) of
                  None \<Rightarrow> None
                | Some s3 \<Rightarrow>
                    if takeWhile is_digit s3 = [] then None
                    else (case strip_prefix lit_m (dropWhile is_digit s3) of
                       None \<Rightarrow> None
                     | Some s4 \<Rightarrow>
                         Some (takeWhile is_numch s1, takeWhile is_numch s2, takeWhile is_digit s3)))))"

text \<open>The lazy first group: the shortest run of characters other than a line feed after which the rest matches.\<close>

fun match_group :: "string \<Rightarrow> (string \<times> string \<times> string \<times> string) option" where
  "match_group [] =
     (case match_tail [] of None \<Rightarrow> None | Some (d, c, a) \<Rightarrow> Some ([], d, c, a))"
| "match_group (x # xs) =
     (case match_tail (x # xs) of
        Some (d, c, a) \<Rightarrow> Some ([], d, c, a)
      | None \<Rightarrow>
          if x = newline then None
          else (case match_group xs of None \<Rightarrow> None | Some (t, d, c, a) \<Rightarrow> Some (x # t, d, c, a)))"

definition match_here :: "string \<Rightarrow> (string \<times> string \<times> string \<times> string) option" where
  "match_here s = (case strip_prefix lit_open s of None \<Rightarrow> None | Some r \<Rightarrow> match_group r)"

fun re_search :: "string \<Rightarrow> (string \<times> string \<times> string \<times> string) option" where
  "re_search [] = match_here []"
| "re_search (x # xs) = (case match_here (x # xs) of Some g \<Rightarrow> Some g | None \<Rightarrow> re_search xs)"

text \<open>
  The series \<open>parse_description\<close> returns, as the tuple of its entries
  \<open>datetime\<close>, \<open>usvh\<close>, \<open>cps\<close>, \<open>accuracy\<close>. \<open>re.search\<close> raises a \<open>TypeError\<close>
  when the description is not a string, and \<open>float\<close> a \<open>ValueError\<close> on a group
  such as \<open>1.2.3\<close>.
\<close>

definition parse_description :: "pyval \<Rightarrow> error + (pyval \<times> pyval \<times> pyval \<times> pyval)" where
  "parse_description desc =
     (case desc of
        PyStr s \<Rightarrow>
          (case re_search s of
             Some (t, d, c, a) \<Rightarrow>
               (case py_float d of
                  Inl e \<Rightarrow> Inl e
                | Inr u \<Rightarrow>
                    (case py_float c of
                       Inl e \<Rightarrow> Inl e
                     | Inr k \<Rightarrow> Inr (PyStr t, PyFloat u, PyFloat k, PyStr a)))
           | None \<Rightarrow> Inr (PyNone, PyNone, PyNone, PyNone))
      | _ \<Rightarrow> Inl TypeError)"

text \<open>
  The pattern as a regular expression reads, following the sentence of the format
  description: some text, the bolded time stamp on one line, the two numbers with
  their units, the accuracy, each closed by a line break.
\<close>

definition matches_pattern :: "string \<Rightarrow> bool" where
  "matches_pattern s =
     (\<exists>pre t d c a post.
        s = pre @ lit_open @ t @ lit_close @ d @ lit_usvh @ c @ lit_cps @ a @ lit_m @ post
        \<and> newline \<notin> set t
        \<and> d \<noteq> [] \<and> list_all is_numch d
        \<and> c \<noteq> [] \<and> list_all is_numch c
        \<and> a \<noteq> [] \<and> list_all is_digit a)"

section \<open>Normalisation and colour\<close>

text \<open>
  The function applied to the column \<open>usvh\<close> in \<open>process_kml\<close>:
  \<^verbatim>\<open>lambda x: min(max((x - min_val) / (max_val - min_val), 0), 1)\<close>.
  The subtraction raises a \<open>TypeError\<close> on \<open>None\<close>, the division a
  \<open>ZeroDivisionError\<close> on equal bounds; \<open>max\<close> and \<open>min\<close> return their first
  argument unless the second is strictly greater (smaller), so a clamped result is
  the integer \<open>0\<close> or \<open>1\<close> and NaN passes through.
\<close>

definition py_max0 :: "real \<Rightarrow> pyval" where
  "py_max0 t = (if 0 > t then PyInt 0 else PyFloat t)"

definition py_min1 :: "pyval \<Rightarrow> pyval" where
  "py_min1 m = (case m of PyFloat t \<Rightarrow> if 1 < t then PyInt 1 else PyFloat t | _ \<Rightarrow> m)"

definition normalize_usvh :: "real \<Rightarrow> real \<Rightarrow> pyval \<Rightarrow> error + pyval" where
  "normalize_usvh min_val max_val x =
     (case x of
        PyNone \<Rightarrow> Inl TypeError
      | PyStr s \<Rightarrow> Inl TypeError
      | PyNaN \<Rightarrow> if max_val - min_val = 0 then Inl ZeroDivisionError else Inr PyNaN
      | PyFloat v \<Rightarrow>
          if max_val - min_val = 0 then Inl ZeroDivisionError
          else Inr (py_min1 (py_max0 ((v - min_val) / (max_val - min_val))))
      | PyInt i \<Rightarrow>
          if max_val - min_val = 0 then Inl ZeroDivisionError
          else Inr (py_min1 (py_max0 ((of_int i - min_val) / (max_val - min_val)))))"


text \<open>
  pandas infers the type of a column of objects: a column with a string stays as it
  is; otherwise, when it holds a float, or integers beside \<open>None\<close>, it becomes a
  float column, where an integer is its float and \<open>None\<close> is NaN; a column of
  integers only, or of \<open>None\<close> only, stays as it is.
\<close>

definition is_str :: "pyval \<Rightarrow> bool" where
  "is_str v = (case v of PyStr s \<Rightarrow> True | _ \<Rightarrow> False)"

definition is_floating :: "pyval \<Rightarrow> bool" where
  "is_floating v = (case v of PyFloat x \<Rightarrow> True | PyNaN \<Rightarrow> True | _ \<Rightarrow> False)"

definition is_integer :: "pyval \<Rightarrow> bool" where
  "is_integer v = (case v of PyInt i \<Rightarrow> True | _ \<Rightarrow> False)"

definition to_float :: "pyval \<Rightarrow> pyval" where
  "to_float v = (case v of PyInt i \<Rightarrow> PyFloat (of_int i) | PyNone \<Rightarrow> PyNaN | _ \<Rightarrow> v)"

definition infer_column :: "pyval list \<Rightarrow> pyval list" where
  "infer_column col =
     (if list_ex is_str col then col
      else if list_ex is_floating col \<or> (list_ex is_integer col \<and> list_ex (\<lambda>v. v = PyNone) col)
      then map to_float col
      else col)"

section \<open>Documents\<close>

text \<open>
  An element of a parsed document: its tag as lxml gives it (the namespace in
  braces before the local name), its attributes, its text and its children in
  document order.
\<close>

datatype xml = Elem (el_tag: string) (el_attrib: "(string \<times> string) list") (el_text: "string option")
  (el_children: "xml list")

text \<open>
  What the script takes from its libraries and its surroundings: matplotlib's
  registry of colour maps (a colour map sends a value to red, green, blue and
  alpha), the truth value lxml gives an element, \<open>str\<close> of a float, the clock of
  \<open>datetime.now\<close> already formatted, and whether a path can be opened for writing.
\<close>

record env =
  get_cmap :: "string \<Rightarrow> (pyval \<Rightarrow> real \<times> real \<times> real \<times> real) option"
  truthy :: "xml \<Rightarrow> bool"
  str_float :: "real \<Rightarrow> string"
  now :: string
  can_write :: "string \<Rightarrow> bool"

definition get_color :: "env \<Rightarrow> pyval \<Rightarrow> string \<Rightarrow> real \<Rightarrow> error + string" where
  "get_color E v cmap_name alpha =
     (case get_cmap E cmap_name of
        None \<Rightarrow> Inl ValueError
      | Some cmap \<Rightarrow>
          (case cmap v of
             (r, g, b, u) \<Rightarrow>
               Inr (upper (format_02x (trunc (alpha * 255)) @ format_02x (trunc (b * 255))
                    @ format_02x (trunc (g * 255)) @ format_02x (trunc (r * 255))))))"



section \<open>Reading the input\<close>

text \<open>
  lxml's objectify looks a child up by name in the namespace of its parent and
  raises an \<open>AttributeError\<close> when there is none; \<open>findall(".//Placemark")\<close> gives
  the descendants whose tag is exactly \<open>Placemark\<close>, in document order.
\<close>

definition ns_of :: "string \<Rightarrow> string" where
  "ns_of t =
     (case t of
        [] \<Rightarrow> []
      | c # r \<Rightarrow>
          if c = CHR ''{'' \<and> CHR ''}'' \<in> set r then c # takeWhile (\<lambda>x. x \<noteq> CHR ''}'') r @ ''}''
          else [])"

definition child :: "xml \<Rightarrow> string \<Rightarrow> error + xml" where
  "child e name =
     (case find (\<lambda>c. el_tag c = ns_of (el_tag e) @ name) (el_children e) of
        None \<Rightarrow> Inl AttributeError
      | Some c \<Rightarrow> Inr c)"

definition text_of :: "xml \<Rightarrow> pyval" where
  "text_of e = (case el_text e of None \<Rightarrow> PyNone | Some s \<Rightarrow> PyStr s)"

definition get_attr :: "xml \<Rightarrow> string \<Rightarrow> pyval" where
  "get_attr e k = (case map_of (el_attrib e) k of None \<Rightarrow> PyNone | Some s \<Rightarrow> PyStr s)"

fun descendants :: "xml \<Rightarrow> xml list" where
  "descendants (Elem t a x cs) = concat (map (\<lambda>c. c # descendants c) cs)"

definition findall :: "xml \<Rightarrow> string \<Rightarrow> xml list" where
  "findall e t = filter (\<lambda>d. el_tag d = t) (descendants e)"

text \<open>The dictionary \<open>process_kml\<close> builds for one placemark.\<close>

record placemark =
  pm_id :: pyval
  style_url :: pyval
  coordinates :: pyval
  description :: pyval

definition extract_placemark :: "xml \<Rightarrow> error + placemark" where
  "extract_placemark p =
     (case child p ''styleUrl'' of
        Inl e \<Rightarrow> Inl e
      | Inr s \<Rightarrow>
          (case child p ''Point'' of
             Inl e \<Rightarrow> Inl e
           | Inr pt \<Rightarrow>
               (case child pt ''coordinates'' of
                  Inl e \<Rightarrow> Inl e
                | Inr co \<Rightarrow>
                    (case child p ''description'' of
                       Inl e \<Rightarrow> Inl e
                     | Inr d \<Rightarrow>
                         Inr \<lparr>pm_id = get_attr p ''id'', style_url = text_of s,
                              coordinates = text_of co, description = text_of d\<rparr>))))"

text \<open>
  What a path of the file system holds: a directory, the bytes of a well-formed
  document (given by its tree), a zip archive (its entries in order, by name), or
  anything else. The run reads the files, logs the paths it opens for reading and
  prints messages.
\<close>

datatype content = Directory | XmlDoc xml | ZipArchive "(string \<times> content) list" | Garbage

datatype message = MsgNotExist string | MsgBadFormat | MsgError error

record world =
  files :: "string \<Rightarrow> content option"
  opened :: "string list"
  stdout :: "message list"

text \<open>
  \<open>Path.name\<close>, \<open>Path.suffix\<close>, \<open>Path.stem\<close>, \<open>with_suffix\<close> and \<open>with_stem\<close>
  of pathlib, for a path in pathlib's normal form (no slash at the end), and
  \<open>str.lower\<close> on the ASCII letters.
\<close>

definition path_name :: "string \<Rightarrow> string" where
  "path_name p = rev (takeWhile (\<lambda>c. c \<noteq> CHR ''/'') (rev p))"

definition path_dir :: "string \<Rightarrow> string" where
  "path_dir p = rev (dropWhile (\<lambda>c. c \<noteq> CHR ''/'') (rev p))"

definition name_suffix :: "string \<Rightarrow> string" where
  "name_suffix n =
     (let ext = rev (takeWhile (\<lambda>c. c \<noteq> CHR ''.'') (rev n))
      in if CHR ''.'' \<in> set n \<and> ext \<noteq> [] \<and> Suc (length ext) < length n then CHR ''.'' # ext else [])"

definition path_suffix :: "string \<Rightarrow> string" where
  "path_suffix p = name_suffix (path_name p)"

definition path_stem :: "string \<Rightarrow> string" where
  "path_stem p = take (length (path_name p) - length (path_suffix p)) (path_name p)"

definition with_suffix :: "string \<Rightarrow> string \<Rightarrow> error + string" where
  "with_suffix p s = (if path_name p = [] then Inl ValueError else Inr (path_dir p @ path_stem p @ s))"

definition with_stem :: "string \<Rightarrow> string \<Rightarrow> error + string" where
  "with_stem p s = (if path_name p = [] then Inl ValueError else Inr (path_dir p @ s @ path_suffix p))"

definition lower_char :: "char \<Rightarrow> char" where
  "lower_char c =
     (let n = (of_char c :: nat) in if 65 \<le> n \<and> n \<le> 90 then char_of (n + 32) else c)"

definition lower :: "string \<Rightarrow> string" where
  "lower s = map lower_char s"

definition ends_with :: "string \<Rightarrow> string \<Rightarrow> bool" where
  "ends_with s e = (length e \<le> length s \<and> drop (length s - length e) s = e)"

definition parse_xml :: "content \<Rightarrow> error + xml" where
  "parse_xml c = (case c of XmlDoc t \<Rightarrow> Inr t | _ \<Rightarrow> Inl XMLSyntaxError)"

text \<open>
  \<open>read_kml_content\<close> followed by \<open>getroot\<close>. In an archive the first entry whose
  name ends in \<open>.kml\<close> is chosen, and opening a name gives the last entry of
  that name.
\<close>

definition read_kml_content :: "world \<Rightarrow> string \<Rightarrow> (error + xml) \<times> world" where
  "read_kml_content W file_path =
     ((if lower (path_suffix file_path) = ''.kmz'' then
         (case files W file_path of
            None \<Rightarrow> Inl OSError
          | Some Directory \<Rightarrow> Inl OSError
          | Some (ZipArchive es) \<Rightarrow>
              (case find (\<lambda>n. ends_with n ''.kml'') (map fst es) of
                 None \<Rightarrow> Inl ValueError
               | Some n \<Rightarrow> (case map_of (rev es) n of None \<Rightarrow> Inl KeyError | Some c \<Rightarrow> parse_xml c))
          | Some c \<Rightarrow> Inl BadZipFile)
       else
         (case files W file_path of
            None \<Rightarrow> Inl OSError
          | Some Directory \<Rightarrow> Inl OSError
          | Some c \<Rightarrow> parse_xml c)),
      W\<lparr>opened := opened W @ [file_path]\<rparr>)"

section \<open>process_kml\<close>

text \<open>A row of the data frame \<open>process_kml\<close> returns: the placemark and the six columns added to it.\<close>

record row = placemark +
  datetime :: pyval
  usvh :: pyval
  cps :: pyval
  accuracy :: pyval
  usvh_normalized :: pyval
  color :: string

definition make_row :: "placemark \<Rightarrow> pyval \<Rightarrow> pyval \<Rightarrow> pyval \<Rightarrow> pyval \<Rightarrow> pyval \<Rightarrow> string \<Rightarrow> row" where
  "make_row p dt us cp ac nz col =
     \<lparr>pm_id = pm_id p, style_url = style_url p, coordinates = coordinates p,
      description = description p, datetime = dt, usvh = us, cps = cp, accuracy = ac,
      usvh_normalized = nz, color = col\<rparr>"

fun make_rows ::
  "placemark list \<Rightarrow> pyval list \<Rightarrow> pyval list \<Rightarrow> pyval list \<Rightarrow> pyval list \<Rightarrow> pyval list \<Rightarrow> string list
    \<Rightarrow> row list" where
  "make_rows (p # ps) (dt # dts) (us # uss) (cp # cpl) (ac # acs) (nz # nzs) (col # cols) =
     make_row p dt us cp ac nz col # make_rows ps dts uss cpl acs nzs cols"
| "make_rows ps dts uss cpl acs nzs cols = []"

text \<open>
  The body of \<open>process_kml\<close> once the document is read. Indexing the empty data
  frame of a document without placemarks by \<open>description\<close> is a \<open>KeyError\<close>. Each
  \<open>apply\<close> runs over its column in order and stops at the first exception; pandas
  infers the type of each new column.
\<close>

definition process_document ::
  "env \<Rightarrow> xml \<Rightarrow> real \<Rightarrow> real \<Rightarrow> string \<Rightarrow> real \<Rightarrow> error + (row list \<times> xml \<times> xml)" where
  "process_document E kml_root min_val max_val cmap_name alpha =
     (case child kml_root ''Document'' of
        Inl e \<Rightarrow> Inl e
      | Inr doc \<Rightarrow>
     (case child doc ''name'' of
        Inl e \<Rightarrow> Inl e
      | Inr nm \<Rightarrow>
     (case child doc ''description'' of
        Inl e \<Rightarrow> Inl e
      | Inr ds \<Rightarrow>
     (case map_err extract_placemark (findall doc ''Placemark'') of
        Inl e \<Rightarrow> Inl e
      | Inr pms \<Rightarrow>
          if pms = [] then Inl KeyError
          else
     (case map_err (\<lambda>p. parse_description (description p)) pms of
        Inl e \<Rightarrow> Inl e
      | Inr series \<Rightarrow>
     (case map_err (normalize_usvh min_val max_val) (infer_column (map (\<lambda>(dt, us, cp, ac). us) series)) of
        Inl e \<Rightarrow> Inl e
      | Inr nzs \<Rightarrow>
     (case map_err (\<lambda>x. get_color E x cmap_name alpha) (infer_column nzs) of
        Inl e \<Rightarrow> Inl e
      | Inr cols \<Rightarrow>
          Inr (make_rows pms
                 (infer_column (map (\<lambda>(dt, us, cp, ac). dt) series))
                 (infer_column (map (\<lambda>(dt, us, cp, ac). us) series))
                 (infer_column (map (\<lambda>(dt, us, cp, ac). cp) series))
                 (infer_column (map (\<lambda>(dt, us, cp, ac). ac) series))
                 (infer_column nzs) cols, nm, ds))))))))"

definition process_kml ::
  "env \<Rightarrow> world \<Rightarrow> string \<Rightarrow> real \<Rightarrow> real \<Rightarrow> string \<Rightarrow> real
    \<Rightarrow> (error + (row list \<times> xml \<times> xml)) \<times> world" where
  "process_kml E W file_path min_val max_val cmap_name alpha =
     (case read_kml_content W file_path of
        (Inl e, W1) \<Rightarrow> (Inl e, W1)
      | (Inr kml_root, W1) \<Rightarrow> (process_document E kml_root min_val max_val cmap_name alpha, W1))"

section \<open>create_kml_from_dataframe\<close>

definition kml_ns :: string where
  "kml_ns = ''{http://www.opengis.net/kml/2.2}''"

definition xsi_nil :: string where
  "xsi_nil = ''{http://www.w3.org/2001/XMLSchema-instance}nil''"

definition icon_url :: string where
  "icon_url = ''https://maps.google.com/mapfiles/kml/pal2/icon18.png''"

text \<open>An element made by pykml's factory \<open>KML\<close>: the tag is in the KML namespace.\<close>

definition KML :: "string \<Rightarrow> (string \<times> string) list \<Rightarrow> string option \<Rightarrow> xml list \<Rightarrow> xml" where
  "KML t a x cs = Elem (kml_ns @ t) a x cs"

definition py_str :: "env \<Rightarrow> pyval \<Rightarrow> string" where
  "py_str E v =
     (case v of
        PyStr s \<Rightarrow> s
      | PyNone \<Rightarrow> ''None''
      | PyInt i \<Rightarrow> show_int i
      | PyFloat x \<Rightarrow> str_float E x
      | PyNaN \<Rightarrow> ''nan'')"

text \<open>\<open>KML.value(v)\<close>: the factory marks the element as nil for \<open>None\<close> and gives it no text.\<close>

definition kml_value :: "env \<Rightarrow> pyval \<Rightarrow> xml" where
  "kml_value E v =
     (case v of
        PyNone \<Rightarrow> KML ''value'' [(xsi_nil, ''true'')] None []
      | _ \<Rightarrow> KML ''value'' [] (Some (py_str E v)) [])"

definition kml_data :: "string \<Rightarrow> xml \<Rightarrow> xml" where
  "kml_data n v = KML ''Data'' [(''name'', n)] None [v]"

definition style_of :: "row \<Rightarrow> xml" where
  "style_of r =
     KML ''Style'' [] None
       [KML ''IconStyle'' [] None
          [KML ''color'' [] (Some (color r)) [],
           KML ''scale'' [] (Some ''0.8'') [],
           KML ''Icon'' [] None [KML ''href'' [] (Some icon_url) []]]]"

definition extended_data :: "env \<Rightarrow> row \<Rightarrow> error + xml" where
  "extended_data E r =
     (case format_fixed 2 (usvh r) of
        Inl e \<Rightarrow> Inl e
      | Inr u \<Rightarrow>
          (case format_fixed 1 (cps r) of
             Inl e \<Rightarrow> Inl e
           | Inr c \<Rightarrow>
               (case py_int (accuracy r) of
                  Inl e \<Rightarrow> Inl e
                | Inr a \<Rightarrow>
                    Inr (KML ''ExtendedData'' [] None
                          [kml_data ''Time'' (kml_value E (datetime r)),
                           kml_data (micro # ''Sv/h'') (KML ''value'' [] (Some u) []),
                           kml_data ''cps'' (KML ''value'' [] (Some c) []),
                           kml_data ''Accuracy (m)'' (KML ''value'' [] (Some (show_int a)) [])]))))"

text \<open>\<open>str.split(sep)\<close>: the fields between the separators, at least one.\<close>

fun split_on :: "char \<Rightarrow> string \<Rightarrow> string list" where
  "split_on c [] = [[]]"
| "split_on c (x # xs) =
     (if x = c then [] # split_on c xs
      else (case split_on c xs of [] \<Rightarrow> [[x]] | h # t \<Rightarrow> (x # h) # t))"

text \<open>
  The coordinates of a row: \<open>split\<close> needs a string, \<open>float(coords[0])\<close> is
  evaluated before \<open>coords[1]\<close> is read, and the third component written is always
  \<open>0\<close>.
\<close>

definition point_of :: "row \<Rightarrow> error + xml" where
  "point_of r =
     (case coordinates r of
        PyStr s \<Rightarrow>
          (case split_on CHR '','' s of
             [] \<Rightarrow> Inl IndexError
           | a # rest \<Rightarrow>
               (case parse_dec a of
                  Inl e \<Rightarrow> Inl e
                | Inr longitude \<Rightarrow>
                    (case rest of
                       [] \<Rightarrow> Inl IndexError
                     | b # others \<Rightarrow>
                         (case parse_dec b of
                            Inl e \<Rightarrow> Inl e
                          | Inr latitude \<Rightarrow>
                              Inr (KML ''Point'' [] None
                                    [KML ''coordinates'' []
                                       (Some (repr_dec longitude @ '','' @ repr_dec latitude @ '',0'')) []])))))
      | _ \<Rightarrow> Inl AttributeError)"

definition make_placemark :: "env \<Rightarrow> row \<Rightarrow> error + xml" where
  "make_placemark E r =
     (case extended_data E r of
        Inl e \<Rightarrow> Inl e
      | Inr ed \<Rightarrow>
          (case point_of r of
             Inl e \<Rightarrow> Inl e
           | Inr pt \<Rightarrow> Inr (KML ''Placemark'' [(''id'', py_str E (pm_id r))] None [style_of r, ed, pt])))"

text \<open>
  The document written: \<open>name\<close> and \<open>description\<close> (the element passed in becomes
  the child of the new one when lxml takes it for true, otherwise the default
  text is used), then one placemark per row in the order of the rows. The tree
  stands for the bytes \<open>etree.tostring\<close> makes of it.
\<close>

definition create_kml_from_dataframe :: "env \<Rightarrow> row list \<Rightarrow> xml \<Rightarrow> xml \<Rightarrow> error + xml" where
  "create_kml_from_dataframe E df nm ds =
     (case map_err (make_placemark E) df of
        Inl e \<Rightarrow> Inl e
      | Inr pms \<Rightarrow>
          Inr (KML ''kml'' [] None
                [KML ''Document'' [] None
                   ([if truthy E nm then KML ''name'' [] None [nm] else KML ''name'' [] (Some (now E)) [],
                     if truthy E ds then KML ''description'' [] None [ds]
                     else KML ''description'' []
                            (Some (''Points: '' @ show_nat (length df) @ ''/'' @ show_nat (length df))) []]
                    @ pms)]))"

section \<open>main\<close>

record args =
  input_file :: string
  arg_min :: real
  arg_max :: real
  arg_cmap :: string
  arg_alpha :: real
  arg_output :: "string option"

definition output_path :: "args \<Rightarrow> error + string" where
  "output_path a =
     (case arg_output a of
        Some p \<Rightarrow>
          if p = [] then
            (case with_stem (input_file a) (path_stem (input_file a) @ ''_processed'') of
               Inl e \<Rightarrow> Inl e
             | Inr q \<Rightarrow> with_suffix q ''.kml'')
          else if path_suffix p = [] then with_suffix p ''.kml''
          else Inr p
      | None \<Rightarrow>
          (case with_stem (input_file a) (path_stem (input_file a) @ ''_processed'') of
             Inl e \<Rightarrow> Inl e
           | Inr q \<Rightarrow> with_suffix q ''.kml''))"

definition print :: "message \<Rightarrow> world \<Rightarrow> world" where
  "print m W = W\<lparr>stdout := stdout W @ [m]\<rparr>"

text \<open>
  \<open>main\<close> after the arguments are parsed: the two checks of the input path, then
  the pipeline inside \<open>try\<close>; every exception ends in the printed message, and the
  output file is opened only after \<open>create_kml_from_dataframe\<close> has returned.
\<close>

definition main :: "env \<Rightarrow> args \<Rightarrow> world \<Rightarrow> world" where
  "main E a W =
     (if files W (input_file a) = None then print (MsgNotExist (input_file a)) W
      else if lower (path_suffix (input_file a)) \<noteq> ''.kml'' \<and> lower (path_suffix (input_file a)) \<noteq> ''.kmz''
      then print MsgBadFormat W
      else
        (case process_kml E W (input_file a) (arg_min a) (arg_max a) (arg_cmap a) (arg_alpha a) of
           (Inl e, W1) \<Rightarrow> print (MsgError e) W1
         | (Inr (df, nm, ds), W1) \<Rightarrow>
             (case output_path a of
                Inl e \<Rightarrow> print (MsgError e) W1
              | Inr out \<Rightarrow>
                  (case create_kml_from_dataframe E df nm ds of
                     Inl e \<Rightarrow> print (MsgError e) W1
                   | Inr kml \<Rightarrow>
                       if can_write E out then W1\<lparr>files := (files W1)(out \<mapsto> XmlDoc kml)\<rparr>
                       else print (MsgError OSError) W1))))"

section \<open>An instance for the examples\<close>

text \<open>
  A grey colour map (red, green and blue equal the value; an integer indexes the
  256 entries of the table; NaN is the transparent black of a bad value), and a
  small input file with two placemarks.
\<close>

definition gray :: "pyval \<Rightarrow> real \<times> real \<times> real \<times> real" where
  "gray v =
     (case v of
        PyFloat x \<Rightarrow> (x, x, x, 1)
      | PyInt i \<Rightarrow> (of_int i / 255, of_int i / 255, of_int i / 255, 1)
      | _ \<Rightarrow> (0, 0, 0, 0))"

definition example_env :: env where
  "example_env =
     \<lparr>get_cmap = (\<lambda>n. if n = ''gray'' then Some gray else None),
      truthy = (\<lambda>e. el_text e \<noteq> None \<and> el_text e \<noteq> Some []),
      str_float = fixed_real 1,
      now = ''2024-01-01 00-00-00'',
      can_write = (\<lambda>p. True)\<rparr>"

definition sample_description :: string where
  "sample_description =
     ''<b>2024-01-01 12:00:00</b></br>0.15 '' @ [micro] @ ''Sv/h</br>25.3 cps</br>Accuracy: ''
       @ [plusminus] @ ''5 m</br>''"

definition sample_placemark :: "(string \<times> string) list \<Rightarrow> string \<Rightarrow> string \<Rightarrow> xml" where
  "sample_placemark attrs co de =
     Elem ''Placemark'' attrs None
       [Elem ''styleUrl'' [] (Some ''#s'') [],
        Elem ''description'' [] (Some de) [],
        Elem ''Point'' [] None [Elem ''coordinates'' [] (Some co) []]]"

definition sample_root :: "xml list \<Rightarrow> xml" where
  "sample_root pms =
     Elem ''kml'' [] None
       [Elem ''Document'' [] None
          ([Elem ''name'' [] (Some ''Track'') [], Elem ''description'' [] (Some ''Survey'') []] @ pms)]"

definition sample_world :: "xml \<Rightarrow> world" where
  "sample_world kml_root = \<lparr>files = [''track.kml'' \<mapsto> XmlDoc kml_root], opened = [], stdout = []\<rparr>"

definition default_args :: args where
  "default_args =
     \<lparr>input_file = ''track.kml'', arg_min = 5 / 100, arg_max = 5 / 10, arg_cmap = ''gray'',
      arg_alpha = 4 / 5, arg_output = None\<rparr>"


definition sample_good :: xml where
  "sample_good =
     sample_root
       [sample_placemark [(''id'', ''p1'')] ''12.5,45.6,100'' sample_description,
        sample_placemark [(''id'', ''p2'')] ''-122.41,37.77'' sample_description]"

definition sample_no_id :: xml where
  "sample_no_id =
     sample_root
       [sample_placemark [(''id'', ''p1'')] ''12.5,45.6,100'' sample_description,
        sample_placemark [] ''-122.41,37.77'' sample_description]"

definition sample_mixed :: xml where
  "sample_mixed =
     sample_root
       [sample_placemark [(''id'', ''p1'')] ''12.5,45.6,100'' sample_description,
        sample_placemark [(''id'', ''p2'')] ''1,2'' ''no data'']"

definition sample_no_style :: xml where
  "sample_no_style =
     sample_root
       [sample_placemark [(''id'', ''p1'')] ''12.5,45.6,100'' sample_description,
        Elem ''Placemark'' [(''id'', ''p2'')] None
          [Elem ''description'' [] (Some sample_description) [],
           Elem ''Point'' [] None [Elem ''coordinates'' [] (Some ''1,2'') []]]]"

section \<open>Reading the input and the output of a run\<close>

text \<open>
  The document the \<open>try\<close> block of \<open>main\<close> computes before it opens the output
  file: \<open>process_kml\<close> followed by \<open>create_kml_from_dataframe\<close>.
\<close>

definition convert :: "env \<Rightarrow> world \<Rightarrow> string \<Rightarrow> real \<Rightarrow> real \<Rightarrow> string \<Rightarrow> real \<Rightarrow> error + xml" where
  "convert E W file_path min_val max_val cmap_name alpha =
     (case fst (process_kml E W file_path min_val max_val cmap_name alpha) of
        Inl e \<Rightarrow> Inl e
      | Inr (df, nm, ds) \<Rightarrow> create_kml_from_dataframe E df nm ds)"

text \<open>The placemarks of the input file, as \<open>process_kml\<close> finds them.\<close>

definition input_placemarks :: "world \<Rightarrow> string \<Rightarrow> xml list" where
  "input_placemarks W file_path =
     (case fst (read_kml_content W file_path) of
        Inl e \<Rightarrow> []
      | Inr kml_root \<Rightarrow>
          (case child kml_root ''Document'' of Inl e \<Rightarrow> [] | Inr doc \<Rightarrow> findall doc ''Placemark''))"

text \<open>The placemarks of a document written, and what a reader finds in one of them.\<close>

definition out_placemarks :: "xml \<Rightarrow> xml list" where
  "out_placemarks k =
     (case child k ''Document'' of
        Inl e \<Rightarrow> []
      | Inr doc \<Rightarrow> filter (\<lambda>c. el_tag c = kml_ns @ ''Placemark'') (el_children doc))"

definition path_text :: "xml \<Rightarrow> string \<Rightarrow> string \<Rightarrow> pyval" where
  "path_text e a b =
     (case child e a of
        Inl x \<Rightarrow> PyNone
      | Inr c \<Rightarrow> (case child c b of Inl x \<Rightarrow> PyNone | Inr d \<Rightarrow> text_of d))"

definition data_of :: "xml \<Rightarrow> (pyval \<times> pyval) list" where
  "data_of pm =
     (case child pm ''ExtendedData'' of
        Inl e \<Rightarrow> []
      | Inr ed \<Rightarrow>
          map (\<lambda>d. (get_attr d ''name'', (case child d ''value'' of Inl e \<Rightarrow> PyNone | Inr v \<Rightarrow> text_of v)))
            (el_children ed))"

text \<open>The id written for a placemark: \<open>str\<close> of the attribute read, which is \<open>None\<close> when the attribute is absent.\<close>

definition written_id :: "pyval \<Rightarrow> pyval" where
  "written_id v = (case v of PyNone \<Rightarrow> PyStr ''None'' | _ \<Rightarrow> v)"



definition child_text :: "xml \<Rightarrow> string \<Rightarrow> pyval" where
  "child_text e a = (case child e a of Inl x \<Rightarrow> PyNone | Inr c \<Rightarrow> text_of c)"

text \<open>A row and the placemark element it comes from.\<close>

definition row_from :: "xml \<Rightarrow> row \<Rightarrow> bool" where
  "row_from p r =
     (\<exists>pm dt us cp ac. extract_placemark p = Inr pm
        \<and> parse_description (description pm) = Inr (dt, us, cp, ac)
        \<and> pm_id r = pm_id pm \<and> coordinates r = coordinates pm \<and> description r = description pm
        \<and> (datetime r = dt \<or> datetime r = to_float dt)
        \<and> (usvh r = us \<or> usvh r = to_float us)
        \<and> (cps r = cp \<or> cps r = to_float cp)
        \<and> (accuracy r = ac \<or> accuracy r = to_float ac))"

text \<open>The steps of a run on a sample document.\<close>

definition sample_process :: "args \<Rightarrow> xml \<Rightarrow> error + (row list \<times> xml \<times> xml)" where
  "sample_process a doc =
     fst (process_kml example_env (sample_world doc) (input_file a) (arg_min a) (arg_max a) (arg_cmap a)
            (arg_alpha a))"

definition sample_convert :: "args \<Rightarrow> xml \<Rightarrow> error + xml" where
  "sample_convert a doc =
     convert example_env (sample_world doc) (input_file a) (arg_min a) (arg_max a) (arg_cmap a) (arg_alpha a)"

definition sample_main :: "args \<Rightarrow> xml \<Rightarrow> world" where
  "sample_main a doc = main example_env a (sample_world doc)"

section \<open>The pattern matcher finds exactly the strings of the pattern\<close>

lemma strip_prefix_iff: "strip_prefix p s = Some r \<longleftrightarrow> s = p @ r"
  by (induction p s rule: strip_prefix.induct) auto

lemma strip_prefix_append: "strip_prefix p (p @ r) = Some r"
  by (simp add: strip_prefix_iff)

lemma class_run:
  assumes "list_all P d" and "\<not> P x"
  shows "takeWhile P (d @ x # r) = d" and "dropWhile P (d @ x # r) = x # r"
  using assms by (induction d) auto

lemma lit_heads:
  "lit_usvh = CHR '' '' # tl lit_usvh" "lit_cps = CHR '' '' # tl lit_cps" "lit_m = CHR '' '' # tl lit_m"
  "\<not> is_numch CHR '' ''" "\<not> is_digit CHR '' ''"
  by (simp_all add: lit_usvh_def lit_cps_def lit_m_def is_numch_def is_digit_def)

lemma match_tail_complete:
  assumes "d \<noteq> []" "list_all is_numch d" "c \<noteq> []" "list_all is_numch c"
    "a \<noteq> []" "list_all is_digit a"
  shows "match_tail (lit_close @ d @ lit_usvh @ c @ lit_cps @ a @ lit_m @ post) = Some (d, c, a)"
proof -
  let ?r3 = "a @ lit_m @ post"
  let ?r2 = "c @ lit_cps @ ?r3"
  let ?r1 = "d @ lit_usvh @ ?r2"
  have t1: "takeWhile is_numch ?r1 = d" "dropWhile is_numch ?r1 = lit_usvh @ ?r2"
    using class_run[OF assms(2) lit_heads(4), of "tl lit_usvh @ ?r2"] lit_heads(1)
    by (metis append_Cons)+
  have t2: "takeWhile is_numch ?r2 = c" "dropWhile is_numch ?r2 = lit_cps @ ?r3"
    using class_run[OF assms(4) lit_heads(4), of "tl lit_cps @ ?r3"] lit_heads(2)
    by (metis append_Cons)+
  have t3: "takeWhile is_digit ?r3 = a" "dropWhile is_digit ?r3 = lit_m @ post"
    using class_run[OF assms(6) lit_heads(5), of "tl lit_m @ post"] lit_heads(3)
    by (metis append_Cons)+
  show ?thesis
    unfolding match_tail_def
    by (simp only: strip_prefix_append option.case t1 t2 t3 assms if_False)
qed

lemma match_tail_sound:
  assumes "match_tail s = Some (d, c, a)"
  shows "\<exists>post. s = lit_close @ d @ lit_usvh @ c @ lit_cps @ a @ lit_m @ post
          \<and> d \<noteq> [] \<and> list_all is_numch d \<and> c \<noteq> [] \<and> list_all is_numch c
          \<and> a \<noteq> [] \<and> list_all is_digit a"
proof -
  from assms obtain s1 s2 s3 s4 where
    s1: "s = lit_close @ s1" and d: "d = takeWhile is_numch s1" "d \<noteq> []" and
    s2: "dropWhile is_numch s1 = lit_usvh @ s2" and c: "c = takeWhile is_numch s2" "c \<noteq> []" and
    s3: "dropWhile is_numch s2 = lit_cps @ s3" and a: "a = takeWhile is_digit s3" "a \<noteq> []" and
    s4: "dropWhile is_digit s3 = lit_m @ s4"
    unfolding match_tail_def
    by (auto simp: strip_prefix_iff split: option.splits if_splits)
  have "s1 = d @ lit_usvh @ s2" using d(1) s2 by (metis takeWhile_dropWhile_id)
  moreover have "s2 = c @ lit_cps @ s3" using c(1) s3 by (metis takeWhile_dropWhile_id)
  moreover have "s3 = a @ lit_m @ s4" using a(1) s4 by (metis takeWhile_dropWhile_id)
  moreover have "list_all is_numch d" "list_all is_numch c" "list_all is_digit a"
    using d(1) c(1) a(1) by (auto simp: list_all_iff dest: set_takeWhileD)
  ultimately show ?thesis using s1 d(2) c(2) a(2) by auto
qed

lemma match_group_sound:
  "match_group s = Some (t, d, c, a) \<Longrightarrow>
     newline \<notin> set t \<and> (\<exists>r. s = t @ r \<and> match_tail r = Some (d, c, a))"
proof (induction s arbitrary: t)
  case Nil
  then show ?case by (auto split: option.splits)
next
  case (Cons x xs)
  show ?case
  proof (cases "match_tail (x # xs)")
    case (Some g)
    with Cons.prems show ?thesis by (cases g) auto
  next
    case None
    with Cons.prems obtain t' where nl: "x \<noteq> newline" and t: "t = x # t'"
      and rec: "match_group xs = Some (t', d, c, a)"
      by (auto split: if_splits option.splits)
    from Cons.IH[OF rec] nl t show ?thesis by auto
  qed
qed

lemma match_group_complete:
  "newline \<notin> set t \<Longrightarrow> match_tail r = Some g \<Longrightarrow> match_group (t @ r) \<noteq> None"
proof (induction t)
  case Nil
  then show ?case by (cases r; cases g) auto
next
  case (Cons x t)
  then show ?case by (cases "match_tail (x # t @ r)") (auto split: option.splits)
qed

lemma re_search_sound:
  "re_search s = Some (t, d, c, a) \<Longrightarrow>
     \<exists>pre r. s = pre @ lit_open @ t @ r \<and> newline \<notin> set t \<and> match_tail r = Some (d, c, a)"
proof (induction s)
  case Nil
  then show ?case
    by (auto simp: match_here_def strip_prefix_iff split: option.splits dest!: match_group_sound)
next
  case (Cons x xs)
  show ?case
  proof (cases "match_here (x # xs)")
    case None
    with Cons.prems have "re_search xs = Some (t, d, c, a)" by simp
    from Cons.IH[OF this] obtain pre r where
      "xs = pre @ lit_open @ t @ r" "newline \<notin> set t" "match_tail r = Some (d, c, a)" by blast
    then have "x # xs = (x # pre) @ lit_open @ t @ r" by simp
    then show ?thesis using \<open>newline \<notin> set t\<close> \<open>match_tail r = Some (d, c, a)\<close> by blast
  next
    case (Some g)
    with Cons.prems have "match_here (x # xs) = Some (t, d, c, a)" by simp
    then obtain r0 where "x # xs = lit_open @ r0" "match_group r0 = Some (t, d, c, a)"
      by (auto simp: match_here_def strip_prefix_iff split: option.splits)
    with match_group_sound[of r0 t d c a] have
      "\<exists>r. x # xs = [] @ lit_open @ t @ r \<and> newline \<notin> set t \<and> match_tail r = Some (d, c, a)"
      by auto
    then show ?thesis by blast
  qed
qed

lemma re_search_complete:
  "newline \<notin> set t \<Longrightarrow> match_tail r = Some g \<Longrightarrow> re_search (pre @ lit_open @ t @ r) \<noteq> None"
proof (induction pre)
  case Nil
  have "match_here (lit_open @ t @ r) \<noteq> None"
    using match_group_complete[OF Nil] by (simp add: match_here_def strip_prefix_append)
  then show ?case by (cases "lit_open @ t @ r") auto
next
  case (Cons x pre)
  then show ?case by (auto split: option.splits)
qed

lemma re_search_matches: "re_search s \<noteq> None \<longleftrightarrow> matches_pattern s"
proof
  assume "re_search s \<noteq> None"
  then obtain t d c a where "re_search s = Some (t, d, c, a)" by (cases "re_search s") auto
  from re_search_sound[OF this] obtain pre r where
    s: "s = pre @ lit_open @ t @ r" "newline \<notin> set t" "match_tail r = Some (d, c, a)" by blast
  from match_tail_sound[OF s(3)] s(1,2) show "matches_pattern s"
    unfolding matches_pattern_def by blast
next
  assume "matches_pattern s"
  then obtain pre t d c a post where
    s: "s = pre @ lit_open @ t @ (lit_close @ d @ lit_usvh @ c @ lit_cps @ a @ lit_m @ post)"
    and h: "newline \<notin> set t" "d \<noteq> []" "list_all is_numch d" "c \<noteq> []" "list_all is_numch c"
      "a \<noteq> []" "list_all is_digit a"
    unfolding matches_pattern_def by auto
  from match_tail_complete[OF h(2-7)] re_search_complete[OF h(1)] s
  show "re_search s \<noteq> None" by blast
qed

section \<open>Normalisation\<close>



section \<open>Colours\<close>














section \<open>Parsing a description\<close>

text \<open>
  Claim C6, as amended. On the description of the specification's example the
  parser returns the time stamp \<open>2024-01-01 12:00:00\<close>, the dose rate \<open>0.15\<close>, the
  count rate \<open>25.3\<close> and, for the accuracy, the digit string \<open>5\<close>, which \<open>int\<close>
  turns into the integer \<open>5\<close> when the placemark is written.
\<close>

theorem parse_description_sample:
  "parse_description (PyStr sample_description)
     = Inr (PyStr ''2024-01-01 12:00:00'', PyFloat (15 / 100), PyFloat (253 / 10), PyStr ''5'')
   \<and> py_int (PyStr ''5'') = Inr 5"
  by code_simp

text \<open>The accuracy the parser returns is not the integer \<open>5\<close>.\<close>

theorem parse_description_accuracy_counterexample:
  "parse_description (PyStr sample_description)
     \<noteq> Inr (PyStr ''2024-01-01 12:00:00'', PyFloat (15 / 100), PyFloat (253 / 10), PyInt 5)"
  by code_simp

text \<open>
  Claim C7. For every description string that does not match the pattern, the
  parser returns normally with the four fields absent.
\<close>

theorem parse_description_no_match:
  assumes "\<not> matches_pattern s"
  shows "parse_description (PyStr s) = Inr (PyNone, PyNone, PyNone, PyNone)"
proof -
  from assms have "re_search s = None" using re_search_matches[of s] by blast
  then show ?thesis by (simp add: parse_description_def)
qed

text \<open>A description without the pattern.\<close>

theorem parse_description_no_match_witness:
  "\<not> matches_pattern ''no data''
   \<and> parse_description (PyStr ''no data'') = Inr (PyNone, PyNone, PyNone, PyNone)"
proof -
  have "re_search ''no data'' = None" by code_simp
  then have h: "\<not> matches_pattern ''no data''" using re_search_matches[of "''no data''"] by simp
  from parse_description_no_match[OF h] h show ?thesis by simp
qed

section \<open>Loops, columns and the elements written\<close>

lemma map_err_all2: "map_err f xs = Inr ys \<Longrightarrow> list_all2 (\<lambda>x y. f x = Inr y) xs ys"
  by (induction xs arbitrary: ys) (auto split: sum.splits)

lemma map_err_length: "map_err f xs = Inr ys \<Longrightarrow> length ys = length xs"
  by (drule map_err_all2) (simp add: list_all2_lengthD)

lemma map_err_nth: "map_err f xs = Inr ys \<Longrightarrow> i < length xs \<Longrightarrow> f (xs ! i) = Inr (ys ! i)"
  by (drule map_err_all2) (auto simp: list_all2_conv_all_nth)

lemma map_err_set: "map_err f xs = Inr ys \<Longrightarrow> y \<in> set ys \<Longrightarrow> \<exists>x\<in>set xs. f x = Inr y"
  by (induction xs arbitrary: ys) (auto split: sum.splits)

lemma map_err_fails: "x \<in> set xs \<Longrightarrow> isl (f x) \<Longrightarrow> isl (map_err f xs)"
  by (induction xs) (auto split: sum.splits)

lemma map_err_same_error:
  assumes "\<And>y e. f y = Inl e \<Longrightarrow> e = e0" and "x \<in> set xs" and "isl (f x)"
  shows "map_err f xs = Inl e0"
proof -
  from map_err_fails[of x xs f, OF assms(2,3)] obtain e where e: "map_err f xs = Inl e"
    by (cases "map_err f xs") auto
  have "map_err f zs = Inl e' \<Longrightarrow> e' = e0" for zs e'
    by (induction zs) (auto split: sum.splits dest: assms(1))
  with e show ?thesis by blast
qed

lemma infer_column_cases: "infer_column col = col \<or> infer_column col = map to_float col"
  by (simp add: infer_column_def)

lemma infer_column_length: "length (infer_column col) = length col"
  using infer_column_cases[of col] by auto

lemma infer_column_nth:
  "i < length col \<Longrightarrow> infer_column col ! i = col ! i \<or> infer_column col ! i = to_float (col ! i)"
  using infer_column_cases[of col] by auto

lemma make_rows_eq:
  "length a = length ps \<Longrightarrow> length b = length ps \<Longrightarrow> length c = length ps \<Longrightarrow>
   length d = length ps \<Longrightarrow> length e = length ps \<Longrightarrow> length f = length ps \<Longrightarrow>
   make_rows ps a b c d e f
     = map (\<lambda>i. make_row (ps ! i) (a ! i) (b ! i) (c ! i) (d ! i) (e ! i) (f ! i)) [0..<length ps]"
proof (induction ps arbitrary: a b c d e f)
  case Nil
  then show ?case by simp
next
  case (Cons p ps)
  then obtain a0 a' b0 b' c0 c' d0 d' e0 e' f0 f' where
    "a = a0 # a'" "b = b0 # b'" "c = c0 # c'" "d = d0 # d'" "e = e0 # e'" "f = f0 # f'"
    by (metis length_Suc_conv)
  with Cons show ?case
    by (simp add: map_upt_Suc del: upt_Suc)
qed

lemma ns_of_kml: "ns_of (kml_ns @ t) = kml_ns"
  by (simp add: ns_of_def kml_ns_def)

lemma child_KML:
  "child (KML t a x cs) n
     = (case find (\<lambda>c. el_tag c = kml_ns @ n) cs of None \<Rightarrow> Inl AttributeError | Some c \<Rightarrow> Inr c)"
  by (simp add: child_def KML_def ns_of_kml)

lemma tag_KML: "el_tag (KML t a x cs) = kml_ns @ t"
  by (simp add: KML_def)

lemma make_placemark_tag: "make_placemark E r = Inr o' \<Longrightarrow> el_tag o' = kml_ns @ ''Placemark''"
  by (auto simp: make_placemark_def tag_KML split: sum.splits)

lemma children_KML: "el_children (KML t a x cs) = cs"
  by (simp add: KML_def)

lemma out_placemarks_create:
  assumes "create_kml_from_dataframe E df nm ds = Inr out"
  shows "map_err (make_placemark E) df = Inr (out_placemarks out)"
proof -
  from assms obtain pms hn hd where pms: "map_err (make_placemark E) df = Inr pms"
    and out: "out = KML ''kml'' [] None [KML ''Document'' [] None ([hn, hd] @ pms)]"
    and hn: "el_tag hn = kml_ns @ ''name''" and hd: "el_tag hd = kml_ns @ ''description''"
    by (auto simp: create_kml_from_dataframe_def tag_KML split: sum.splits)
  have "list_all (\<lambda>c. el_tag c = kml_ns @ ''Placemark'') pms"
    using map_err_set[OF pms] make_placemark_tag
    unfolding list_all_iff by blast
  then have "filter (\<lambda>c. el_tag c = kml_ns @ ''Placemark'') pms = pms"
    by (simp add: list_all_iff)
  then have "out_placemarks out = pms"
    unfolding out out_placemarks_def by (simp add: child_KML tag_KML children_KML hn hd)
  with pms show ?thesis by simp
qed

lemma get_attr_KML: "get_attr (KML t a x cs) k = (case map_of a k of None \<Rightarrow> PyNone | Some s \<Rightarrow> PyStr s)"
  by (simp add: get_attr_def KML_def)

lemma text_of_KML: "text_of (KML t a x cs) = (case x of None \<Rightarrow> PyNone | Some s \<Rightarrow> PyStr s)"
  by (simp add: text_of_def KML_def)

lemma make_placemark_id:
  "make_placemark E r = Inr o' \<Longrightarrow> get_attr o' ''id'' = PyStr (py_str E (pm_id r))"
  by (auto simp: make_placemark_def get_attr_KML split: sum.splits)

lemma style_tag: "el_tag (style_of r) = kml_ns @ ''Style''"
  by (simp add: style_of_def tag_KML)

lemma extended_data_tag: "extended_data E r = Inr ed \<Longrightarrow> el_tag ed = kml_ns @ ''ExtendedData''"
  by (auto simp: extended_data_def tag_KML split: sum.splits)




lemma kml_value_tag: "el_tag (kml_value E v) = kml_ns @ ''value''"
  by (simp add: kml_value_def tag_KML split: pyval.splits)

lemma data_entry:
  assumes "el_tag v = kml_ns @ ''value''"
  shows "get_attr (kml_data n v) ''name'' = PyStr n" and "child (kml_data n v) ''value'' = Inr v"
  using assms by (simp_all add: kml_data_def get_attr_KML child_KML)

lemma make_placemark_data:
  assumes "make_placemark E r = Inr o'"
  shows "\<exists>u c a. format_fixed 2 (usvh r) = Inr u \<and> format_fixed 1 (cps r) = Inr c
           \<and> py_int (accuracy r) = Inr a
           \<and> data_of o' = [(PyStr ''Time'', text_of (kml_value E (datetime r))),
                           (PyStr (micro # ''Sv/h''), PyStr u),
                           (PyStr ''cps'', PyStr c),
                           (PyStr ''Accuracy (m)'', PyStr (show_int a))]"
proof -
  from assms obtain ed pt where ed: "extended_data E r = Inr ed" and pt: "point_of r = Inr pt"
    and o: "o' = KML ''Placemark'' [(''id'', py_str E (pm_id r))] None [style_of r, ed, pt]"
    by (auto simp: make_placemark_def split: sum.splits)
  from ed obtain u c a where u: "format_fixed 2 (usvh r) = Inr u" and c: "format_fixed 1 (cps r) = Inr c"
    and a: "py_int (accuracy r) = Inr a"
    and e: "ed = KML ''ExtendedData'' [] None
                  [kml_data ''Time'' (kml_value E (datetime r)),
                   kml_data (micro # ''Sv/h'') (KML ''value'' [] (Some u) []),
                   kml_data ''cps'' (KML ''value'' [] (Some c) []),
                   kml_data ''Accuracy (m)'' (KML ''value'' [] (Some (show_int a)) [])]"
    by (auto simp: extended_data_def split: sum.splits)
  have "child o' ''ExtendedData'' = Inr ed"
    unfolding o by (simp add: child_KML style_tag extended_data_tag[OF ed])
  then have "data_of o' = [(PyStr ''Time'', text_of (kml_value E (datetime r))),
                           (PyStr (micro # ''Sv/h''), PyStr u),
                           (PyStr ''cps'', PyStr c),
                           (PyStr ''Accuracy (m)'', PyStr (show_int a))]"
    unfolding data_of_def e
    by (simp add: children_KML data_entry kml_value_tag tag_KML text_of_KML)
  with u c a show ?thesis by blast
qed

lemma parse_description_shape:
  assumes "parse_description v = Inr (dt, us, cp, ac)"
  shows "(\<exists>s. v = PyStr s \<and> re_search s = None \<and> dt = PyNone \<and> us = PyNone \<and> cp = PyNone \<and> ac = PyNone)
       \<or> (\<exists>s t d c a u k. v = PyStr s \<and> re_search s = Some (t, d, c, a) \<and> py_float d = Inr u
             \<and> py_float c = Inr k \<and> dt = PyStr t \<and> us = PyFloat u \<and> cp = PyFloat k \<and> ac = PyStr a)"
  using assms
  by (auto simp: parse_description_def split: pyval.splits option.splits sum.splits)

lemma re_search_digits: "re_search s = Some (t, d, c, a) \<Longrightarrow> a \<noteq> [] \<and> list_all is_digit a"
  using re_search_sound[of s t d c a] match_tail_sound by blast

lemma process_document_success:
  assumes "process_document E rt lo hi cm al = Inr (df, nm, ds)"
  obtains doc pms series nzs cols where
    "child rt ''Document'' = Inr doc"
    "map_err extract_placemark (findall doc ''Placemark'') = Inr pms"
    "pms \<noteq> []"
    "map_err (\<lambda>p. parse_description (description p)) pms = Inr series"
    "map_err (normalize_usvh lo hi) (infer_column (map (\<lambda>(dt, us, cp, ac). us) series)) = Inr nzs"
    "map_err (\<lambda>x. get_color E x cm al) (infer_column nzs) = Inr cols"
    "df = make_rows pms
            (infer_column (map (\<lambda>(dt, us, cp, ac). dt) series))
            (infer_column (map (\<lambda>(dt, us, cp, ac). us) series))
            (infer_column (map (\<lambda>(dt, us, cp, ac). cp) series))
            (infer_column (map (\<lambda>(dt, us, cp, ac). ac) series))
            (infer_column nzs) cols"
  using assms unfolding process_document_def
  by (auto split: sum.splits if_splits)

lemma process_document_rows:
  assumes "process_document E rt lo hi cm al = Inr (df, nm, ds)" and "child rt ''Document'' = Inr doc"
  shows "list_all2 row_from (findall doc ''Placemark'') df"
proof -
  from assms(1) obtain doc' pms series nzs cols where
    doc': "child rt ''Document'' = Inr doc'"
    and pms: "map_err extract_placemark (findall doc' ''Placemark'') = Inr pms"
    and series: "map_err (\<lambda>p. parse_description (description p)) pms = Inr series"
    and nzs: "map_err (normalize_usvh lo hi) (infer_column (map (\<lambda>(dt, us, cp, ac). us) series)) = Inr nzs"
    and cols: "map_err (\<lambda>x. get_color E x cm al) (infer_column nzs) = Inr cols"
    and df: "df = make_rows pms
            (infer_column (map (\<lambda>(dt, us, cp, ac). dt) series))
            (infer_column (map (\<lambda>(dt, us, cp, ac). us) series))
            (infer_column (map (\<lambda>(dt, us, cp, ac). cp) series))
            (infer_column (map (\<lambda>(dt, us, cp, ac). ac) series))
            (infer_column nzs) cols"
    by (rule process_document_success)
  from doc' assms(2) have [simp]: "doc' = doc" by simp
  let ?ps = "findall doc ''Placemark''"
  have l1: "length pms = length ?ps" using map_err_length[OF pms] by simp
  have l2: "length series = length pms" using map_err_length[OF series] .
  have l3: "length nzs = length pms" using map_err_length[OF nzs] l2 by (simp add: infer_column_length)
  have l4: "length cols = length pms" using map_err_length[OF cols] l3 by (simp add: infer_column_length)
  have rows: "df = map (\<lambda>i. make_row (pms ! i)
            (infer_column (map (\<lambda>(dt, us, cp, ac). dt) series) ! i)
            (infer_column (map (\<lambda>(dt, us, cp, ac). us) series) ! i)
            (infer_column (map (\<lambda>(dt, us, cp, ac). cp) series) ! i)
            (infer_column (map (\<lambda>(dt, us, cp, ac). ac) series) ! i)
            (infer_column nzs ! i) (cols ! i)) [0..<length pms]"
    unfolding df by (rule make_rows_eq) (simp_all add: infer_column_length l2 l3 l4)
  have len: "length ?ps = length df" using rows l1 by simp
  have "row_from (?ps ! i) (df ! i)" if i: "i < length ?ps" for i
  proof -
    from i l1 have ip: "i < length pms" by simp
    obtain dt us cp ac where s: "series ! i = (dt, us, cp, ac)" by (cases "series ! i") auto
    have e: "extract_placemark (?ps ! i) = Inr (pms ! i)"
      using map_err_nth[OF pms] i by simp
    have p: "parse_description (description (pms ! i)) = Inr (dt, us, cp, ac)"
      using map_err_nth[OF series ip] s by simp
    have r: "df ! i = make_row (pms ! i)
            (infer_column (map (\<lambda>(dt, us, cp, ac). dt) series) ! i)
            (infer_column (map (\<lambda>(dt, us, cp, ac). us) series) ! i)
            (infer_column (map (\<lambda>(dt, us, cp, ac). cp) series) ! i)
            (infer_column (map (\<lambda>(dt, us, cp, ac). ac) series) ! i)
            (infer_column nzs ! i) (cols ! i)"
      unfolding rows using ip by simp
    have c1: "infer_column (map (\<lambda>(dt, us, cp, ac). dt) series) ! i = dt
        \<or> infer_column (map (\<lambda>(dt, us, cp, ac). dt) series) ! i = to_float dt"
      using infer_column_nth[of i "map (\<lambda>(dt, us, cp, ac). dt) series"] ip l2 s by simp
    have c2: "infer_column (map (\<lambda>(dt, us, cp, ac). us) series) ! i = us
        \<or> infer_column (map (\<lambda>(dt, us, cp, ac). us) series) ! i = to_float us"
      using infer_column_nth[of i "map (\<lambda>(dt, us, cp, ac). us) series"] ip l2 s by simp
    have c3: "infer_column (map (\<lambda>(dt, us, cp, ac). cp) series) ! i = cp
        \<or> infer_column (map (\<lambda>(dt, us, cp, ac). cp) series) ! i = to_float cp"
      using infer_column_nth[of i "map (\<lambda>(dt, us, cp, ac). cp) series"] ip l2 s by simp
    have c4: "infer_column (map (\<lambda>(dt, us, cp, ac). ac) series) ! i = ac
        \<or> infer_column (map (\<lambda>(dt, us, cp, ac). ac) series) ! i = to_float ac"
      using infer_column_nth[of i "map (\<lambda>(dt, us, cp, ac). ac) series"] ip l2 s by simp
    show ?thesis
      unfolding row_from_def r make_row_def
      using e p c1 c2 c3 c4 by (intro exI[of _ "pms ! i"] exI[of _ dt] exI[of _ us] exI[of _ cp] exI[of _ ac]) simp
  qed
  with len show ?thesis by (simp add: list_all2_conv_all_nth)
qed

lemma convert_success:
  assumes "convert E W path lo hi cm al = Inr out"
  obtains rt doc df nm ds where
    "fst (read_kml_content W path) = Inr rt"
    "child rt ''Document'' = Inr doc"
    "input_placemarks W path = findall doc ''Placemark''"
    "process_document E rt lo hi cm al = Inr (df, nm, ds)"
    "create_kml_from_dataframe E df nm ds = Inr out"
proof -
  from assms obtain rt df nm ds where rd: "fst (read_kml_content W path) = Inr rt"
    and pd: "process_document E rt lo hi cm al = Inr (df, nm, ds)"
    and cr: "create_kml_from_dataframe E df nm ds = Inr out"
    by (auto simp: convert_def process_kml_def split: sum.splits prod.splits)
  from pd obtain doc where doc: "child rt ''Document'' = Inr doc"
    by (rule process_document_success)
  have ip: "input_placemarks W path = findall doc ''Placemark''"
    by (simp add: input_placemarks_def rd doc)
  show ?thesis by (rule that[OF rd doc ip pd cr])
qed

lemma convert_placemarks:
  assumes "convert E W path lo hi cm al = Inr out"
  shows "list_all2 (\<lambda>p o'. \<exists>r. row_from p r \<and> make_placemark E r = Inr o')
           (input_placemarks W path) (out_placemarks out)"
proof -
  from assms obtain rt doc df nm ds where
    doc: "child rt ''Document'' = Inr doc"
    and ip: "input_placemarks W path = findall doc ''Placemark''"
    and pd: "process_document E rt lo hi cm al = Inr (df, nm, ds)"
    and cr: "create_kml_from_dataframe E df nm ds = Inr out"
    by (rule convert_success)
  have a: "list_all2 row_from (input_placemarks W path) df"
    unfolding ip by (rule process_document_rows[OF pd doc])
  have b: "list_all2 (\<lambda>r o'. make_placemark E r = Inr o') df (out_placemarks out)"
    by (rule map_err_all2[OF out_placemarks_create[OF cr]])
  from a b have "(list_all2 row_from OO list_all2 (\<lambda>r o'. make_placemark E r = Inr o'))
      (input_placemarks W path) (out_placemarks out)"
    by (rule relcomppI)
  then have "list_all2 (row_from OO (\<lambda>r o'. make_placemark E r = Inr o'))
      (input_placemarks W path) (out_placemarks out)"
    by (simp add: list.rel_compp)
  then show ?thesis
    by (rule list_all2_mono) auto
qed

lemma list_all2_map_eq: "list_all2 (\<lambda>x y. g y = f x) xs ys \<Longrightarrow> map g ys = map f xs"
  by (induction rule: list_all2_induct) auto

lemma get_attr_shape: "get_attr p k = PyNone \<or> (\<exists>s. get_attr p k = PyStr s)"
  by (simp add: get_attr_def split: option.splits)

lemma written_id_str: "PyStr (py_str E (get_attr p k)) = written_id (get_attr p k)"
  using get_attr_shape[of p k] by (auto simp: py_str_def written_id_def)

lemma extract_placemark_fields:
  assumes "extract_placemark p = Inr pm"
  shows "pm_id pm = get_attr p ''id''"
    and "coordinates pm = path_text p ''Point'' ''coordinates''"
    and "description pm = child_text p ''description''"
  using assms
  by (auto simp: extract_placemark_def path_text_def child_text_def split: sum.splits)


lemma py_int_digits: "a \<noteq> [] \<Longrightarrow> list_all is_digit a \<Longrightarrow> py_int (PyStr a) = Inr (int (digits_val a))"
  by (simp add: py_int_def)

lemma show_int_nat: "show_int (int n) = show_nat n"
  by (simp add: show_int_def)

lemma convert_extended_data:
  assumes "convert E W file_path min_val max_val cmap_name alpha = Inr out"
  shows "list_all2
           (\<lambda>p o'. \<exists>s t d c a u k.
               child_text p ''description'' = PyStr s \<and> re_search s = Some (t, d, c, a)
               \<and> py_float d = Inr u \<and> py_float c = Inr k
               \<and> data_of o' = [(PyStr ''Time'', PyStr t),
                               (PyStr (micro # ''Sv/h''), PyStr (fixed_real 2 u)),
                               (PyStr ''cps'', PyStr (fixed_real 1 k)),
                               (PyStr ''Accuracy (m)'', PyStr (show_nat (digits_val a)))])
           (input_placemarks W file_path) (out_placemarks out)"
proof (rule list_all2_mono[OF convert_placemarks[OF assms]])
  fix p o'
  assume "\<exists>r. row_from p r \<and> make_placemark E r = Inr o'"
  then obtain r pm dt us cp ac where e: "extract_placemark p = Inr pm"
    and pd: "parse_description (description pm) = Inr (dt, us, cp, ac)"
    and cols: "datetime r = dt \<or> datetime r = to_float dt" "usvh r = us \<or> usvh r = to_float us"
      "cps r = cp \<or> cps r = to_float cp" "accuracy r = ac \<or> accuracy r = to_float ac"
    and m: "make_placemark E r = Inr o'"
    unfolding row_from_def by blast
  from make_placemark_data[OF m] obtain u' c' a' where
    f: "format_fixed 2 (usvh r) = Inr u'" "format_fixed 1 (cps r) = Inr c'" "py_int (accuracy r) = Inr a'"
    and d: "data_of o' = [(PyStr ''Time'', text_of (kml_value E (datetime r))),
                          (PyStr (micro # ''Sv/h''), PyStr u'),
                          (PyStr ''cps'', PyStr c'),
                          (PyStr ''Accuracy (m)'', PyStr (show_int a'))]"
    by blast
  from parse_description_shape[OF pd] show "\<exists>s t d c a u k.
               child_text p ''description'' = PyStr s \<and> re_search s = Some (t, d, c, a)
               \<and> py_float d = Inr u \<and> py_float c = Inr k
               \<and> data_of o' = [(PyStr ''Time'', PyStr t),
                               (PyStr (micro # ''Sv/h''), PyStr (fixed_real 2 u)),
                               (PyStr ''cps'', PyStr (fixed_real 1 k)),
                               (PyStr ''Accuracy (m)'', PyStr (show_nat (digits_val a)))]"
  proof
    assume "\<exists>s. description pm = PyStr s \<and> re_search s = None \<and> dt = PyNone \<and> us = PyNone
              \<and> cp = PyNone \<and> ac = PyNone"
    with cols(4) have "accuracy r = PyNone \<or> accuracy r = PyNaN" by (auto simp: to_float_def)
    with f(3) show ?thesis by (auto simp: py_int_def)
  next
    assume "\<exists>s t d c a u k. description pm = PyStr s \<and> re_search s = Some (t, d, c, a)
              \<and> py_float d = Inr u \<and> py_float c = Inr k \<and> dt = PyStr t \<and> us = PyFloat u
              \<and> cp = PyFloat k \<and> ac = PyStr a"
    then obtain s t d c a u k where s: "description pm = PyStr s" and rs: "re_search s = Some (t, d, c, a)"
      and fl: "py_float d = Inr u" "py_float c = Inr k"
      and v: "dt = PyStr t" "us = PyFloat u" "cp = PyFloat k" "ac = PyStr a"
      by blast
    from cols v have r: "datetime r = PyStr t" "usvh r = PyFloat u" "cps r = PyFloat k" "accuracy r = PyStr a"
      by (auto simp: to_float_def)
    from re_search_digits[OF rs] have "py_int (PyStr a) = Inr (int (digits_val a))"
      by (simp add: py_int_digits)
    with f r have "u' = fixed_real 2 u" "c' = fixed_real 1 k" "a' = int (digits_val a)"
      by (simp_all add: format_fixed_def)
    moreover have "text_of (kml_value E (datetime r)) = PyStr t"
      by (simp add: r kml_value_def text_of_KML py_str_def)
    moreover have "child_text p ''description'' = PyStr s"
      using extract_placemark_fields(3)[OF e] s by simp
    ultimately show ?thesis using d rs fl by (simp add: show_int_nat)
  qed
qed

section \<open>Runs that abort\<close>

lemma child_error: "child e n = Inl x \<Longrightarrow> x = AttributeError"
  by (simp add: child_def split: option.splits)

lemma extract_placemark_error: "extract_placemark p = Inl x \<Longrightarrow> x = AttributeError"
  by (auto simp: extract_placemark_def split: sum.splits dest: child_error)

lemma extract_placemark_missing:
  "isl (child p ''styleUrl'') \<or> isl (child p ''description'') \<Longrightarrow> isl (extract_placemark p)"
  by (auto simp: extract_placemark_def split: sum.splits)

lemma read_world: "snd (read_kml_content W p) = W\<lparr>opened := opened W @ [p]\<rparr>"
  by (simp add: read_kml_content_def)

lemma process_world: "snd (process_kml E W p lo hi cm al) = W\<lparr>opened := opened W @ [p]\<rparr>"
  using read_world[of W p]
  by (cases "read_kml_content W p") (auto simp: process_kml_def split: sum.splits)

lemma process_kml_document:
  "fst (read_kml_content W p) = Inr rt \<Longrightarrow>
     fst (process_kml E W p lo hi cm al) = process_document E rt lo hi cm al"
  by (cases "read_kml_content W p") (auto simp: process_kml_def)

lemma input_placemarks_read:
  assumes "p \<in> set (input_placemarks W path)"
  obtains rt doc where "fst (read_kml_content W path) = Inr rt" "child rt ''Document'' = Inr doc"
    "input_placemarks W path = findall doc ''Placemark''" "files W path \<noteq> None"
proof -
  from assms obtain rt where r: "fst (read_kml_content W path) = Inr rt"
    by (cases "fst (read_kml_content W path)") (auto simp: input_placemarks_def)
  with assms obtain doc where d: "child rt ''Document'' = Inr doc"
    by (cases "child rt ''Document''") (auto simp: input_placemarks_def)
  from r d have i: "input_placemarks W path = findall doc ''Placemark''"
    by (simp add: input_placemarks_def)
  have "files W path = None \<Longrightarrow> fst (read_kml_content W path) = Inl OSError"
    by (simp add: read_kml_content_def)
  with r have f: "files W path \<noteq> None" by auto
  show ?thesis by (rule that[OF r d i f])
qed

lemma main_process_error:
  assumes "files W (input_file a) \<noteq> None"
    and "lower (path_suffix (input_file a)) = ''.kml'' \<or> lower (path_suffix (input_file a)) = ''.kmz''"
    and "fst (process_kml E W (input_file a) (arg_min a) (arg_max a) (arg_cmap a) (arg_alpha a)) = Inl e"
  shows "main E a W = W\<lparr>opened := opened W @ [input_file a], stdout := stdout W @ [MsgError e]\<rparr>"
proof -
  obtain r W1 where p: "process_kml E W (input_file a) (arg_min a) (arg_max a) (arg_cmap a) (arg_alpha a) = (r, W1)"
    by (cases "process_kml E W (input_file a) (arg_min a) (arg_max a) (arg_cmap a) (arg_alpha a)")
  with assms(3) process_world[of E W "input_file a" "arg_min a" "arg_max a" "arg_cmap a" "arg_alpha a"]
  have "r = Inl e" "W1 = W\<lparr>opened := opened W @ [input_file a]\<rparr>" by simp_all
  with p assms(1,2) show ?thesis
    by (auto simp: main_def print_def)
qed

lemma main_keeps_files:
  assumes "isl (convert E W (input_file a) (arg_min a) (arg_max a) (arg_cmap a) (arg_alpha a))"
  shows "files (main E a W) = files W"
proof -
  obtain r W1 where p: "process_kml E W (input_file a) (arg_min a) (arg_max a) (arg_cmap a) (arg_alpha a) = (r, W1)"
    by (cases "process_kml E W (input_file a) (arg_min a) (arg_max a) (arg_cmap a) (arg_alpha a)")
  with process_world[of E W "input_file a" "arg_min a" "arg_max a" "arg_cmap a" "arg_alpha a"]
  have w: "W1 = W\<lparr>opened := opened W @ [input_file a]\<rparr>" by simp
  show ?thesis
  proof (cases r)
    case (Inl e)
    with p w show ?thesis by (simp add: main_def print_def)
  next
    case (Inr t)
    obtain df nm ds where t: "t = (df, nm, ds)" by (cases t)
    with Inr p assms have "isl (create_kml_from_dataframe E df nm ds)"
      by (simp add: convert_def)
    then obtain e where "create_kml_from_dataframe E df nm ds = Inl e"
      by (cases "create_kml_from_dataframe E df nm ds") auto
    with Inr t p w show ?thesis
      by (simp add: main_def print_def split: sum.splits)
  qed
qed

lemma convert_process_error:
  "isl (fst (process_kml E W p lo hi cm al)) \<Longrightarrow> isl (convert E W p lo hi cm al)"
  by (cases "fst (process_kml E W p lo hi cm al)") (simp_all add: convert_def)





lemma process_document_error_before_parse:
  assumes "child rt ''Document'' = Inr doc" and "p \<in> set (findall doc ''Placemark'')"
    and "isl (extract_placemark p)"
  shows "process_document E rt lo hi cm al = Inl AttributeError"
proof -
  have "map_err extract_placemark (findall doc ''Placemark'') = Inl AttributeError"
    by (rule map_err_same_error[where f = extract_placemark, OF extract_placemark_error assms(2,3)])
  with assms(1) show ?thesis
    by (auto simp: process_document_def split: sum.splits dest: child_error)
qed

lemma sample_good_converts: "\<not> isl (sample_convert default_args sample_good)"
  by code_simp

lemma normalize_all_absent:
  assumes "col \<noteq> []" and "list_all (\<lambda>v. v = PyNone) col"
  shows "map_err (normalize_usvh lo hi) (infer_column col) = Inl TypeError"
proof -
  from assms(2) have n: "\<not> list_ex is_str col" "\<not> list_ex is_floating col" "\<not> list_ex is_integer col"
    by (auto simp: list_all_iff list_ex_iff is_str_def is_floating_def is_integer_def)
  then have i: "infer_column col = col" by (simp add: infer_column_def)
  from assms obtain ys where "col = PyNone # ys" by (cases col) auto
  then show ?thesis unfolding i by (simp add: normalize_usvh_def)
qed








section \<open>The document written\<close>

text \<open>
  A run of \<open>main\<close> leaves the files as they are or writes one file, which holds
  the document \<open>convert\<close> returns.
\<close>

lemma main_writes_convert:
  "files (main E a W) = files W
   \<or> (\<exists>out k. output_path a = Inr out
         \<and> convert E W (input_file a) (arg_min a) (arg_max a) (arg_cmap a) (arg_alpha a) = Inr k
         \<and> files (main E a W) = (files W)(out \<mapsto> XmlDoc k))"
proof -
  obtain r W1 where p: "process_kml E W (input_file a) (arg_min a) (arg_max a) (arg_cmap a) (arg_alpha a) = (r, W1)"
    by (cases "process_kml E W (input_file a) (arg_min a) (arg_max a) (arg_cmap a) (arg_alpha a)")
  with process_world[of E W "input_file a" "arg_min a" "arg_max a" "arg_cmap a" "arg_alpha a"]
  have w: "W1 = W\<lparr>opened := opened W @ [input_file a]\<rparr>" by simp
  show ?thesis
  proof (cases r)
    case (Inl e)
    with p w show ?thesis by (simp add: main_def print_def)
  next
    case (Inr t)
    obtain df nm ds where t: "t = (df, nm, ds)" by (cases t)
    from Inr t p have c: "convert E W (input_file a) (arg_min a) (arg_max a) (arg_cmap a) (arg_alpha a)
        = create_kml_from_dataframe E df nm ds"
      by (simp add: convert_def)
    show ?thesis
    proof (cases "output_path a")
      case (Inl e)
      with Inr t p w show ?thesis by (simp add: main_def print_def)
    next
      case out: (Inr out)
      show ?thesis
      proof (cases "create_kml_from_dataframe E df nm ds")
        case (Inl e)
        with out Inr t p w show ?thesis by (simp add: main_def print_def)
      next
        case k: (Inr k)
        with out Inr t p w c show ?thesis by (simp add: main_def print_def)
      qed
    qed
  qed
qed

text \<open>
  Claim C5, as amended. For every input that the conversion accepts, the placemarks
  of the document written correspond one to one, in order, to the placemarks of
  the input, and each carries the id of its input placemark; where the input
  placemark has no id attribute, the output placemark has the id \<open>None\<close>, the
  text Python gives the missing value.
\<close>

theorem placemarks_one_to_one:
  assumes "convert E W file_path min_val max_val cmap_name alpha = Inr out"
  shows "map (\<lambda>o'. get_attr o' ''id'') (out_placemarks out)
           = map (\<lambda>p. written_id (get_attr p ''id'')) (input_placemarks W file_path)"
proof (rule list_all2_map_eq)
  show "list_all2 (\<lambda>p o'. get_attr o' ''id'' = written_id (get_attr p ''id''))
          (input_placemarks W file_path) (out_placemarks out)"
  proof (rule list_all2_mono[OF convert_placemarks[OF assms]])
    fix p o'
    assume "\<exists>r. row_from p r \<and> make_placemark E r = Inr o'"
    then obtain r pm where "extract_placemark p = Inr pm" "pm_id r = pm_id pm"
      "make_placemark E r = Inr o'"
      unfolding row_from_def by blast
    then show "get_attr o' ''id'' = written_id (get_attr p ''id'')"
      using make_placemark_id[of E r o'] extract_placemark_fields(1)[of p pm]
      by (simp add: written_id_str)
  qed
qed

text \<open>The sample document with two placemarks, both with an id.\<close>

theorem placemarks_one_to_one_witness:
  "\<not> isl (sample_convert default_args sample_good)
   \<and> map (\<lambda>o'. get_attr o' ''id'') (out_placemarks (projr (sample_convert default_args sample_good)))
       = [PyStr ''p1'', PyStr ''p2'']"
proof -
  obtain out where o: "sample_convert default_args sample_good = Inr out"
    using sample_good_converts by (cases "sample_convert default_args sample_good") auto
  have i: "map (\<lambda>p. written_id (get_attr p ''id''))
             (input_placemarks (sample_world sample_good) (input_file default_args))
      = [PyStr ''p1'', PyStr ''p2'']"
    by code_simp
  from placemarks_one_to_one[OF o[unfolded sample_convert_def]] i sample_good_converts show ?thesis
    by (simp add: o)
qed

text \<open>
  A placemark without an id attribute is accepted and written with an id
  attribute, the string \<open>None\<close>: the ids of the output are not those of the input.
\<close>

theorem placemarks_id_counterexample:
  "(case files (sample_main default_args sample_no_id) ''track_processed.kml'' of
      Some (XmlDoc k) \<Rightarrow> map (\<lambda>o'. get_attr o' ''id'') (out_placemarks k)
    | _ \<Rightarrow> []) = [PyStr ''p1'', PyStr ''None'']
   \<and> map (\<lambda>p. get_attr p ''id'') (input_placemarks (sample_world sample_no_id) ''track.kml'')
       = [PyStr ''p1'', PyNone]"
  by code_simp





section \<open>Runs that write nothing\<close>

text \<open>
  Claim C3, as amended. For every input with a record whose description does not
  match the pattern, the run ends in an error and the files are as before: no
  record is skipped and nothing is written. Normalisation is the step that raises
  (a \<open>TypeError\<close>) on a column in which every dose rate is absent; there is no
  error type of its own for this case.
\<close>

theorem unparsed_description_aborts:
  assumes "p \<in> set (input_placemarks W (input_file a))"
    and "child_text p ''description'' = PyStr s"
    and "\<not> matches_pattern s"
  shows "isl (convert E W (input_file a) (arg_min a) (arg_max a) (arg_cmap a) (arg_alpha a))
       \<and> files (main E a W) = files W
       \<and> (\<forall>col. col \<noteq> [] \<and> list_all (\<lambda>v. v = PyNone) col \<longrightarrow>
             map_err (normalize_usvh (arg_min a) (arg_max a)) (infer_column col) = Inl TypeError)"
proof -
  have c: "isl (convert E W (input_file a) (arg_min a) (arg_max a) (arg_cmap a) (arg_alpha a))"
  proof (rule ccontr)
    assume "\<not> isl (convert E W (input_file a) (arg_min a) (arg_max a) (arg_cmap a) (arg_alpha a))"
    then obtain out where
      "convert E W (input_file a) (arg_min a) (arg_max a) (arg_cmap a) (arg_alpha a) = Inr out"
      by (cases "convert E W (input_file a) (arg_min a) (arg_max a) (arg_cmap a) (arg_alpha a)") auto
    from convert_extended_data[OF this] assms(1) obtain s' g where
      "child_text p ''description'' = PyStr s'" "re_search s' = Some g"
      by (fastforce simp: list_all2_conv_all_nth in_set_conv_nth)
    with assms(2) have "re_search s \<noteq> None" by simp
    with assms(3) show False using re_search_matches[of s] by blast
  qed
  then have "files (main E a W) = files W"
    by (rule main_keeps_files)
  moreover have "map_err (normalize_usvh (arg_min a) (arg_max a)) (infer_column col) = Inl TypeError"
    if "col \<noteq> []" "list_all (\<lambda>v. v = PyNone) col" for col
    by (rule normalize_all_absent[OF that])
  ultimately show ?thesis using c by blast
qed

text \<open>The sample document whose second description has no reading.\<close>

theorem unparsed_description_aborts_witness:
  "child_text (sample_placemark [(''id'', ''p2'')] ''1,2'' ''no data'') ''description'' = PyStr ''no data''
   \<and> \<not> matches_pattern ''no data''
   \<and> isl (sample_convert default_args sample_mixed)
   \<and> files (sample_main default_args sample_mixed) = files (sample_world sample_mixed)"
proof -
  let ?p = "sample_placemark [(''id'', ''p2'')] ''1,2'' ''no data''"
  have h1: "?p \<in> set (input_placemarks (sample_world sample_mixed) (input_file default_args))"
    by code_simp
  have h2: "child_text ?p ''description'' = PyStr ''no data''"
    by code_simp
  have "re_search ''no data'' = None" by code_simp
  then have h3: "\<not> matches_pattern ''no data''"
    using re_search_matches[of "''no data''"] by simp
  from unparsed_description_aborts[OF h1 h2 h3, of example_env] h2 h3 show ?thesis
    by (simp add: sample_convert_def sample_main_def)
qed

text \<open>
  When another record has a dose rate, the absent one is NaN in the column:
  normalisation returns NaN for it, \<open>process_kml\<close> returns normally, and the run
  is ended later by the \<open>TypeError\<close> of \<open>int\<close> on the absent accuracy.
\<close>

theorem normalization_passes_counterexample:
  "map (\<lambda>p. child_text p ''description'') (input_placemarks (sample_world sample_mixed) ''track.kml'')
       = [PyStr sample_description, PyStr ''no data'']
   \<and> parse_description (PyStr ''no data'') = Inr (PyNone, PyNone, PyNone, PyNone)
   \<and> \<not> isl (sample_process default_args sample_mixed)
   \<and> map usvh_normalized (fst (projr (sample_process default_args sample_mixed)))
       = [PyFloat (2 / 9), PyNaN]
   \<and> stdout (sample_main default_args sample_mixed) = [MsgError TypeError]"
  by code_simp




text \<open>
  Claim C10. For every input with a placemark that lacks a \<open>styleUrl\<close> child or a
  \<open>description\<close> child, the extraction of the placemarks raises an
  \<open>AttributeError\<close>, \<open>process_kml\<close> ends with it, and the run prints the error
  and writes no file.
\<close>

theorem missing_child_aborts:
  assumes "p \<in> set (input_placemarks W (input_file a))"
    and "child p ''styleUrl'' = Inl AttributeError \<or> child p ''description'' = Inl AttributeError"
  shows "map_err extract_placemark (input_placemarks W (input_file a)) = Inl AttributeError
       \<and> fst (process_kml E W (input_file a) (arg_min a) (arg_max a) (arg_cmap a) (arg_alpha a))
           = Inl AttributeError
       \<and> files (main E a W) = files W
       \<and> (lower (path_suffix (input_file a)) = ''.kml'' \<or> lower (path_suffix (input_file a)) = ''.kmz''
            \<longrightarrow> stdout (main E a W) = stdout W @ [MsgError AttributeError])"
proof -
  from assms(1) obtain rt doc where r: "fst (read_kml_content W (input_file a)) = Inr rt"
    and d: "child rt ''Document'' = Inr doc"
    and i: "input_placemarks W (input_file a) = findall doc ''Placemark''"
    and f: "files W (input_file a) \<noteq> None"
    by (rule input_placemarks_read)
  from assms(2) have x: "isl (extract_placemark p)"
    by (auto intro: extract_placemark_missing)
  have e: "map_err extract_placemark (input_placemarks W (input_file a)) = Inl AttributeError"
    by (rule map_err_same_error[where f = extract_placemark, OF extract_placemark_error assms(1) x])
  have pd: "process_document E rt (arg_min a) (arg_max a) (arg_cmap a) (arg_alpha a) = Inl AttributeError"
    using assms(1) x unfolding i by (rule process_document_error_before_parse[OF d])
  then have pk: "fst (process_kml E W (input_file a) (arg_min a) (arg_max a) (arg_cmap a) (arg_alpha a))
      = Inl AttributeError"
    by (simp add: process_kml_document[OF r])
  then have "isl (convert E W (input_file a) (arg_min a) (arg_max a) (arg_cmap a) (arg_alpha a))"
    by (simp add: convert_process_error)
  then have k: "files (main E a W) = files W"
    by (rule main_keeps_files)
  have "stdout (main E a W) = stdout W @ [MsgError AttributeError]"
    if "lower (path_suffix (input_file a)) = ''.kml'' \<or> lower (path_suffix (input_file a)) = ''.kmz''"
    using main_process_error[OF f that pk] by simp
  with e pk k show ?thesis by blast
qed

text \<open>The sample document whose second placemark has no style reference.\<close>

theorem missing_child_aborts_witness:
  "Elem ''Placemark'' [(''id'', ''p2'')] None
     [Elem ''description'' [] (Some sample_description) [],
      Elem ''Point'' [] None [Elem ''coordinates'' [] (Some ''1,2'') []]]
     \<in> set (input_placemarks (sample_world sample_no_style) (input_file default_args))
   \<and> sample_process default_args sample_no_style = Inl AttributeError
   \<and> files (sample_main default_args sample_no_style) = files (sample_world sample_no_style)
   \<and> stdout (sample_main default_args sample_no_style) = [MsgError AttributeError]"
proof -
  let ?p = "Elem ''Placemark'' [(''id'', ''p2'')] None
     [Elem ''description'' [] (Some sample_description) [],
      Elem ''Point'' [] None [Elem ''coordinates'' [] (Some ''1,2'') []]]"
  have h1: "?p \<in> set (input_placemarks (sample_world sample_no_style) (input_file default_args))"
    by code_simp
  have h2: "child ?p ''styleUrl'' = Inl AttributeError \<or> child ?p ''description'' = Inl AttributeError"
    by code_simp
  have s: "lower (path_suffix (input_file default_args)) = ''.kml''
      \<or> lower (path_suffix (input_file default_args)) = ''.kmz''"
    by code_simp
  have o: "stdout (sample_world sample_no_style) = []"
    by (simp add: sample_world_def)
  from missing_child_aborts[OF h1 h2, of example_env] s o h1 show ?thesis
    by (simp add: sample_process_def sample_main_def)
qed

end
